theory Spec2Isabelle
  imports Main
begin

section \<open>Data model\<close>

text \<open>
  A timestamp is the reading of the store's clock, as an integer count of clock ticks.
\<close>

type_synonym datetime = int

text \<open>
  Modelled from the spec: the ORM class \<open>Task\<close> of \<open>models.py\<close>, which is not among the
  sources. The spec gives the table \<open>tasks\<close> the columns \<open>id\<close> (integer primary key,
  auto-increment), \<open>title\<close> (text), \<open>description\<close> (text, nullable), \<open>completed\<close>
  (boolean) and \<open>created_at\<close> (timestamp, set at insert). An object built by
  \<open>Task(title=..., description=..., completed=...)\<close> has no \<open>id\<close> and no \<open>created_at\<close> yet
  (the tests say: set by the database, not on object creation), so both are optional here.
  The field \<open>id\<close> is written \<open>id'\<close>, since \<open>id\<close> is the identity function of HOL.
\<close>

record Task =
  id' :: "int option"
  title :: string
  description :: "string option"
  completed :: bool
  created_at :: "datetime option"

text \<open>
  The Pydantic schemas of \<open>main.py\<close>. \<open>TaskCreate\<close> is \<open>TaskBase\<close> with nothing added;
  \<open>TaskResponse\<close> is \<open>TaskBase\<close> with \<open>id: int\<close> and \<open>created_at: datetime\<close>. Their fields
  carry a prefix, \<open>c_\<close>, \<open>u_\<close> and \<open>r_\<close>, to keep them apart from the columns of \<open>Task\<close>.
\<close>

record TaskCreate =
  c_title :: string
  c_description :: "string option"
  c_completed :: bool

record TaskUpdate =
  u_title :: "string option"
  u_description :: "string option"
  u_completed :: "bool option"

record TaskResponse =
  r_title :: string
  r_description :: "string option"
  r_completed :: bool
  r_id :: int
  r_created_at :: datetime

text \<open>
  A key of a JSON request body is left out, sent as \<open>null\<close>, or sent with a value of the
  type the schema asks for. A body may carry the keys \<open>id\<close> and \<open>created_at\<close> as well: no
  request schema declares them, and Pydantic drops the keys a schema does not declare.
\<close>

datatype 'a field = Omitted | Null | Value 'a

record body =
  b_title :: "string field"
  b_description :: "string field"
  b_completed :: "bool field"
  b_id :: "int field"
  b_created_at :: "datetime field"

text \<open>
  What a request can end in besides its payload: the \<open>HTTPException\<close> a handler raises
  (status code and detail), the framework's rejection of a body (422), its rejection of a
  returned object that does not fit the response model (500), the session's refusal to
  refresh an object that has no row (500), and the database driver's refusal to bind an
  integer that the key column cannot hold (500). No handler catches any of the last three.
\<close>

datatype http_error =
    HTTPException int string
  | RequestValidationError
  | ResponseValidationError
  | InvalidRequestError
  | OverflowError

type_synonym json_object = "(string \<times> string) list"

fun status_code :: "http_error + 'a \<Rightarrow> int" where
  "status_code (Inr _) = 200"
| "status_code (Inl (HTTPException code _)) = code"
| "status_code (Inl RequestValidationError) = 422"
| "status_code (Inl ResponseValidationError) = 500"
| "status_code (Inl InvalidRequestError) = 500"
| "status_code (Inl OverflowError) = 500"

text \<open>The body FastAPI sends for an \<open>HTTPException\<close>: the object \<open>{"detail": detail}\<close>.\<close>

fun error_body :: "http_error \<Rightarrow> json_object option" where
  "error_body (HTTPException _ detail) = Some [(''detail'', detail)]"
| "error_body _ = None"

text \<open>Status code and error body of a response; a payload carries no error body.\<close>

definition error_response :: "http_error + 'a \<Rightarrow> int \<times> json_object option" where
  "error_response r = (status_code r, (case r of Inl e \<Rightarrow> error_body e | Inr _ \<Rightarrow> None))"

section \<open>Request validation\<close>

text \<open>
  A field declared \<open>T\<close> with no default is required; a field declared \<open>T = d\<close> takes \<open>d\<close>
  when left out and rejects \<open>null\<close>; a field declared \<open>Optional[T] = d\<close> takes \<open>d\<close> when left
  out and \<open>None\<close> when sent as \<open>null\<close>.
\<close>

fun required :: "'a field \<Rightarrow> http_error + 'a" where
  "required (Value v) = Inr v"
| "required _ = Inl RequestValidationError"

fun with_default :: "'a \<Rightarrow> 'a field \<Rightarrow> http_error + 'a" where
  "with_default d Omitted = Inr d"
| "with_default d Null = Inl RequestValidationError"
| "with_default d (Value v) = Inr v"

fun optional_with_default :: "'a option \<Rightarrow> 'a field \<Rightarrow> 'a option" where
  "optional_with_default d Omitted = d"
| "optional_with_default d Null = None"
| "optional_with_default d (Value v) = Some v"

text \<open>\<open>title: str\<close>, \<open>description: Optional[str] = ""\<close>, \<open>completed: bool = False\<close>.\<close>

definition parse_TaskCreate :: "body \<Rightarrow> http_error + TaskCreate" where
  "parse_TaskCreate b =
     (case required (b_title b) of
        Inl e \<Rightarrow> Inl e
      | Inr t \<Rightarrow>
          (case with_default False (b_completed b) of
             Inl e \<Rightarrow> Inl e
           | Inr c \<Rightarrow>
               Inr \<lparr>c_title = t,
                    c_description = optional_with_default (Some '''') (b_description b),
                    c_completed = c\<rparr>))"

text \<open>Every field of \<open>TaskUpdate\<close> is \<open>Optional[...] = None\<close>.\<close>

definition parse_TaskUpdate :: "body \<Rightarrow> TaskUpdate" where
  "parse_TaskUpdate b =
     \<lparr>u_title = optional_with_default None (b_title b),
      u_description = optional_with_default None (b_description b),
      u_completed = optional_with_default None (b_completed b)\<rparr>"

text \<open>
  The response model: \<open>TaskResponse\<close> is read from the attributes of the returned object
  (\<open>from_attributes = True\<close>); \<open>id\<close> and \<open>created_at\<close> must not be \<open>None\<close>.
\<close>

definition from_attributes :: "Task \<Rightarrow> http_error + TaskResponse" where
  "from_attributes t =
     (case id' t of
        None \<Rightarrow> Inl ResponseValidationError
      | Some i \<Rightarrow>
          (case created_at t of
             None \<Rightarrow> Inl ResponseValidationError
           | Some c \<Rightarrow>
               Inr \<lparr>r_title = title t, r_description = description t,
                    r_completed = completed t, r_id = i, r_created_at = c\<rparr>))"

fun from_attributes_list :: "Task list \<Rightarrow> http_error + TaskResponse list" where
  "from_attributes_list [] = Inr []"
| "from_attributes_list (t # ts) =
     (case from_attributes t of
        Inl e \<Rightarrow> Inl e
      | Inr r \<Rightarrow>
          (case from_attributes_list ts of
             Inl e \<Rightarrow> Inl e
           | Inr rs \<Rightarrow> Inr (r # rs)))"

section \<open>The store\<close>

text \<open>
  Modelled from the spec: the table behind the session, whose declaration (\<open>models.py\<close>,
  \<open>database.py\<close>) is not among the sources. The rows are kept in insertion order, and
  \<open>next_id\<close> is the next identity value of the auto-increment primary key.
\<close>

record database =
  rows :: "Task list"
  next_id :: int

definition empty_database :: database where
  "empty_database = \<lparr>rows = [], next_id = 1\<rparr>"

text \<open>\<open>db.query(Task).all()\<close>: every row, in the order of the table.\<close>

definition query_all :: "database \<Rightarrow> Task list" where
  "query_all db = rows db"

text \<open>
  \<open>db.query(Task).filter(Task.id == task_id).first()\<close>: the first match, or \<open>None\<close>. This
  is the lookup in the table, for a \<open>task_id\<close> that has reached it; whether the driver
  hands a \<open>task_id\<close> on to the table is \<open>bind_key\<close> below.
\<close>

definition query_filter_id_first :: "database \<Rightarrow> int \<Rightarrow> Task option" where
  "query_filter_id_first db task_id = find (\<lambda>t. id' t = Some task_id) (rows db)"

text \<open>
  Modelled from the spec: \<open>db.add(db_task); db.commit()\<close> inserts a row, "assigns the next
  identity value" and "stamps \<open>created_at\<close> with the current time at the store, not the
  caller". The object gets its primary key back; its other attributes are expired and are
  read again by \<open>refresh\<close>. \<open>now\<close> is the store's clock at the insertion.
\<close>

definition add_commit :: "datetime \<Rightarrow> database \<Rightarrow> Task \<Rightarrow> Task \<times> database" where
  "add_commit now db t =
     (let pk = next_id db
      in (t\<lparr>id' := Some pk\<rparr>,
          \<lparr>rows = rows db @ [t\<lparr>id' := Some pk, created_at := Some now\<rparr>],
           next_id = pk + 1\<rparr>))"

text \<open>\<open>db.refresh(db_task)\<close>: the row of the object's primary key, read again.\<close>

definition refresh :: "database \<Rightarrow> Task \<Rightarrow> http_error + Task" where
  "refresh db t =
     (case id' t of
        None \<Rightarrow> Inl InvalidRequestError
      | Some pk \<Rightarrow>
          (case query_filter_id_first db pk of
             None \<Rightarrow> Inl InvalidRequestError
           | Some r \<Rightarrow> Inr r))"

text \<open>
  \<open>db.commit()\<close> after attributes of a loaded object were assigned: the row of the
  object's primary key takes the object's attributes.
\<close>

definition commit_update :: "database \<Rightarrow> Task \<Rightarrow> database" where
  "commit_update db t = db\<lparr>rows := map (\<lambda>r. if id' r = id' t then t else r) (rows db)\<rparr>"

text \<open>\<open>db.delete(db_task); db.commit()\<close>: the row of the object's primary key is removed.\<close>

definition delete_commit :: "database \<Rightarrow> Task \<Rightarrow> database" where
  "delete_commit db t = db\<lparr>rows := filter (\<lambda>r. id' r \<noteq> id' t) (rows db)\<rparr>"

section \<open>The route handlers of \<open>main.py\<close>\<close>

definition not_found :: http_error where
  "not_found = HTTPException 404 ''Task not found''"

definition get_tasks :: "database \<Rightarrow> Task list" where
  "get_tasks db = (let tasks = query_all db in tasks)"

definition create_task :: "datetime \<Rightarrow> TaskCreate \<Rightarrow> database \<Rightarrow> (http_error + Task) \<times> database" where
  "create_task now task db =
     (let db_task = \<lparr>id' = None, title = c_title task, description = c_description task,
                     completed = c_completed task, created_at = None\<rparr>;
          (db_task, db) = add_commit now db db_task
      in (refresh db db_task, db))"

definition get_task :: "int \<Rightarrow> database \<Rightarrow> http_error + Task" where
  "get_task task_id db =
     (case query_filter_id_first db task_id of
        None \<Rightarrow> Inl not_found
      | Some db_task \<Rightarrow> Inr db_task)"

definition update_task :: "int \<Rightarrow> TaskUpdate \<Rightarrow> database \<Rightarrow> (http_error + Task) \<times> database" where
  "update_task task_id task db =
     (case query_filter_id_first db task_id of
        None \<Rightarrow> (Inl not_found, db)
      | Some db_task \<Rightarrow>
          (let db_task = (case u_title task of
                            None \<Rightarrow> db_task | Some v \<Rightarrow> db_task\<lparr>title := v\<rparr>);
               db_task = (case u_description task of
                            None \<Rightarrow> db_task | Some v \<Rightarrow> db_task\<lparr>description := Some v\<rparr>);
               db_task = (case u_completed task of
                            None \<Rightarrow> db_task | Some v \<Rightarrow> db_task\<lparr>completed := v\<rparr>);
               db = commit_update db db_task
           in (refresh db db_task, db)))"

definition delete_task :: "int \<Rightarrow> database \<Rightarrow> (http_error + json_object) \<times> database" where
  "delete_task task_id db =
     (case query_filter_id_first db task_id of
        None \<Rightarrow> (Inl not_found, db)
      | Some db_task \<Rightarrow>
          (Inr [(''message'', ''Task deleted successfully'')], delete_commit db db_task))"

definition root :: json_object where
  "root = [(''message'', ''To-Do API is running'')]"

section \<open>The endpoints: validation, handler, response model\<close>

definition GET_tasks :: "database \<Rightarrow> http_error + TaskResponse list" where
  "GET_tasks db = from_attributes_list (get_tasks db)"

definition POST_tasks :: "datetime \<Rightarrow> body \<Rightarrow> database \<Rightarrow> (http_error + TaskResponse) \<times> database" where
  "POST_tasks now b db =
     (case parse_TaskCreate b of
        Inl e \<Rightarrow> (Inl e, db)
      | Inr task \<Rightarrow>
          (case create_task now task db of
             (Inl e, db') \<Rightarrow> (Inl e, db')
           | (Inr t, db') \<Rightarrow> (from_attributes t, db')))"

definition GET_task :: "int \<Rightarrow> database \<Rightarrow> http_error + TaskResponse" where
  "GET_task task_id db =
     (case get_task task_id db of
        Inl e \<Rightarrow> Inl e
      | Inr t \<Rightarrow> from_attributes t)"

definition PUT_task :: "int \<Rightarrow> body \<Rightarrow> database \<Rightarrow> (http_error + TaskResponse) \<times> database" where
  "PUT_task task_id b db =
     (case update_task task_id (parse_TaskUpdate b) db of
        (Inl e, db') \<Rightarrow> (Inl e, db')
      | (Inr t, db') \<Rightarrow> (from_attributes t, db'))"

definition DELETE_task :: "int \<Rightarrow> database \<Rightarrow> (http_error + json_object) \<times> database" where
  "DELETE_task task_id db = delete_task task_id db"

section \<open>What the framework and the driver do before a handler's lookup\<close>

text \<open>
  A request carries no body, a body that the schema of the route rejects (not a JSON
  object, or a key of a type its field does not accept), or a JSON object whose keys fit.
  The framework validates the body before it calls the handler (\<open>task: TaskUpdate\<close> is a
  required parameter of \<open>update_task\<close>): the first two end in 422.
\<close>

datatype request_body = Missing | Malformed | Json body

fun validate_body :: "request_body \<Rightarrow> http_error + body" where
  "validate_body (Json b) = Inr b"
| "validate_body _ = Inl RequestValidationError"

text \<open>
  \<open>task_id: int\<close> is a Python integer, unbounded, and the handlers pass it to the lookup
  unchecked. The key column is an SQL integer, signed 64-bit at most: the driver raises
  \<open>OverflowError\<close> when it is to bind an integer outside that range, before any row is
  read.
\<close>

definition in_key_range :: "int \<Rightarrow> bool" where
  "in_key_range i \<longleftrightarrow> - (2 ^ 63) \<le> i \<and> i < 2 ^ 63"

definition bind_key :: "int \<Rightarrow> http_error + int" where
  "bind_key i = (if in_key_range i then Inr i else Inl OverflowError)"

text \<open>
  The three routes on \<open>/tasks/{task_id}\<close> as a client reaches them: validation of the
  body (for \<open>PUT\<close>), then the handler, whose first step is the lookup bound to \<open>task_id\<close>.
\<close>

definition GET_request :: "int \<Rightarrow> database \<Rightarrow> http_error + TaskResponse" where
  "GET_request task_id db =
     (case bind_key task_id of
        Inl e \<Rightarrow> Inl e
      | Inr k \<Rightarrow> GET_task k db)"

definition PUT_request ::
  "int \<Rightarrow> request_body \<Rightarrow> database \<Rightarrow> (http_error + TaskResponse) \<times> database" where
  "PUT_request task_id rb db =
     (case validate_body rb of
        Inl e \<Rightarrow> (Inl e, db)
      | Inr b \<Rightarrow>
          (case bind_key task_id of
             Inl e \<Rightarrow> (Inl e, db)
           | Inr k \<Rightarrow> PUT_task k b db))"

definition DELETE_request :: "int \<Rightarrow> database \<Rightarrow> (http_error + json_object) \<times> database" where
  "DELETE_request task_id db =
     (case bind_key task_id of
        Inl e \<Rightarrow> (Inl e, db)
      | Inr k \<Rightarrow> DELETE_task k db)"

section \<open>Requests and the states of the store\<close>

datatype request =
    ReqRoot
  | ReqList
  | ReqCreate body
  | ReqGet int
  | ReqUpdate int body
  | ReqDelete int

datatype payload =
    Message json_object
  | TaskObject TaskResponse
  | TaskArray "TaskResponse list"

fun payload_of :: "('a \<Rightarrow> payload) \<Rightarrow> http_error + 'a \<Rightarrow> http_error + payload" where
  "payload_of f (Inl e) = Inl e"
| "payload_of f (Inr x) = Inr (f x)"

text \<open>One request against the store; \<open>now\<close> is the store's clock while it is served.\<close>

fun handle :: "datetime \<Rightarrow> request \<Rightarrow> database \<Rightarrow> (http_error + payload) \<times> database" where
  "handle now ReqRoot db = (Inr (Message root), db)"
| "handle now ReqList db = (payload_of TaskArray (GET_tasks db), db)"
| "handle now (ReqCreate b) db =
     (case POST_tasks now b db of (r, db') \<Rightarrow> (payload_of TaskObject r, db'))"
| "handle now (ReqGet task_id) db = (payload_of TaskObject (GET_task task_id db), db)"
| "handle now (ReqUpdate task_id b) db =
     (case PUT_task task_id b db of (r, db') \<Rightarrow> (payload_of TaskObject r, db'))"
| "handle now (ReqDelete task_id) db =
     (case DELETE_task task_id db of (r, db') \<Rightarrow> (payload_of Message r, db'))"

text \<open>The primary keys of the rows, and each row's pair of \<open>id\<close> and \<open>created_at\<close>.\<close>

definition ids :: "database \<Rightarrow> int list" where
  "ids db = List.map_filter id' (rows db)"

definition stamps :: "database \<Rightarrow> (int option \<times> datetime option) list" where
  "stamps db = map (\<lambda>t. (id' t, created_at t)) (rows db)"

text \<open>
  The states the store is in: every row has its \<open>id\<close> and its \<open>created_at\<close>, the keys
  ascend along the table (so no two rows share one), and every key is below the next
  identity value.
\<close>

definition wf :: "database \<Rightarrow> bool" where
  "wf db \<longleftrightarrow>
     list_all (\<lambda>t. id' t \<noteq> None \<and> created_at t \<noteq> None) (rows db) \<and>
     sorted_wrt (<) (ids db) \<and>
     list_all (\<lambda>i. i < next_id db) (ids db)"

text \<open>The row a task object of a response describes.\<close>

definition row_of :: "TaskResponse \<Rightarrow> Task" where
  "row_of r =
     \<lparr>id' = Some (r_id r), title = r_title r, description = r_description r,
      completed = r_completed r, created_at = Some (r_created_at r)\<rparr>"

text \<open>
  What the three guarded assignments of \<open>update_task\<close> leave in the loaded object.
\<close>

definition assigned :: "TaskUpdate \<Rightarrow> Task \<Rightarrow> Task" where
  "assigned task t =
     t\<lparr>title := (case u_title task of None \<Rightarrow> title t | Some v \<Rightarrow> v),
       description := (case u_description task of None \<Rightarrow> description t | Some v \<Rightarrow> Some v),
       completed := (case u_completed task of None \<Rightarrow> completed t | Some v \<Rightarrow> v)\<rparr>"

text \<open>The row that \<open>create_task\<close> inserts for a validated body.\<close>

definition inserted :: "datetime \<Rightarrow> TaskCreate \<Rightarrow> database \<Rightarrow> Task" where
  "inserted now task db =
     \<lparr>id' = Some (next_id db), title = c_title task, description = c_description task,
      completed = c_completed task, created_at = Some now\<rparr>"

text \<open>Whether a key of a body carries a value, rather than being left out or \<open>null\<close>.\<close>

fun has_value :: "'a field \<Rightarrow> bool" where
  "has_value (Value _) = True"
| "has_value _ = False"

text \<open>The states reached from the empty store by requests.\<close>

inductive reachable :: "database \<Rightarrow> bool" where
  reachable_empty: "reachable empty_database"
| reachable_step: "reachable db \<Longrightarrow> reachable (snd (handle now req db))"

section \<open>Example data\<close>

text \<open>
  The task of the spec's partial-update example, in a store that holds nothing else, and
  request bodies: one with no key at all, one with only a title.
\<close>

definition example_task :: Task where
  "example_task =
     \<lparr>id' = Some 1, title = ''Original'', description = Some ''Keep This'',
      completed = False, created_at = Some 100\<rparr>"

definition example_database :: database where
  "example_database = \<lparr>rows = [example_task], next_id = 2\<rparr>"

definition empty_body :: body where
  "empty_body =
     \<lparr>b_title = Omitted, b_description = Omitted, b_completed = Omitted,
      b_id = Omitted, b_created_at = Omitted\<rparr>"

definition only_title :: "string \<Rightarrow> body" where
  "only_title t = empty_body\<lparr>b_title := Value t\<rparr>"

text \<open>A sequence of requests, each with the store's clock at its time, served in turn.\<close>

fun run :: "(datetime \<times> request) list \<Rightarrow> database \<Rightarrow> database" where
  "run [] db = db"
| "run ((now, req) # reqs) db = run reqs (snd (handle now req db))"

text \<open>
  The spec's end-to-end scenario: three tasks created in the empty store, then the
  second deleted.
\<close>

definition scenario_database :: database where
  "scenario_database =
     run [(1, ReqCreate (only_title ''Task 1'')),
          (2, ReqCreate (only_title ''Task 2'')),
          (3, ReqCreate (only_title ''Task 3'')),
          (4, ReqDelete 2)] empty_database"

section \<open>Lemmas about the store and the response model\<close>

subsection \<open>Looking up a row\<close>

lemma in_ids_iff: "i \<in> set (ids db) \<longleftrightarrow> (\<exists>t\<in>set (rows db). id' t = Some i)"
  by (auto simp: ids_def List.map_filter_def image_iff)

lemma query_None_iff: "query_filter_id_first db i = None \<longleftrightarrow> i \<notin> set (ids db)"
  by (auto simp: query_filter_id_first_def find_None_iff in_ids_iff)

lemma query_SomeD:
  "query_filter_id_first db i = Some t \<Longrightarrow> t \<in> set (rows db) \<and> id' t = Some i"
  by (auto simp: query_filter_id_first_def find_Some_iff)

lemma find_unique:
  "distinct (map f ts) \<Longrightarrow> t \<in> set ts \<Longrightarrow> find (\<lambda>r. f r = f t) ts = Some t"
  by (induction ts) (auto simp: image_iff)

lemma ids_eq_map: "list_all (\<lambda>t. id' t \<noteq> None) ts \<Longrightarrow> map Some (List.map_filter id' ts) = map id' ts"
  by (induction ts) (auto split: option.splits)

lemma wf_distinct_ids: "wf db \<Longrightarrow> distinct (ids db)"
  unfolding wf_def using strict_sorted_iff by blast

lemma wf_distinct_keys: assumes "wf db" shows "distinct (map id' (rows db))"
proof -
  have "list_all (\<lambda>t. id' t \<noteq> None) (rows db)"
    using assms by (simp add: wf_def list_all_iff)
  then have "map Some (ids db) = map id' (rows db)"
    unfolding ids_def by (rule ids_eq_map)
  moreover have "distinct (map Some (ids db))"
    using wf_distinct_ids [OF assms] by (simp add: distinct_map)
  ultimately show ?thesis by simp
qed

lemma wf_query:
  "wf db \<Longrightarrow> t \<in> set (rows db) \<Longrightarrow> id' t = Some i \<Longrightarrow> query_filter_id_first db i = Some t"
  unfolding query_filter_id_first_def
  using find_unique [of id' "rows db" t] wf_distinct_keys by simp

lemma wf_rowD:
  "wf db \<Longrightarrow> t \<in> set (rows db) \<Longrightarrow> \<exists>i c. id' t = Some i \<and> created_at t = Some c \<and> i < next_id db"
proof -
  assume w: "wf db" and t: "t \<in> set (rows db)"
  from w t obtain i c where ic: "id' t = Some i" "created_at t = Some c"
    by (auto simp: wf_def list_all_iff)
  with t have "i \<in> set (ids db)" by (auto simp: in_ids_iff)
  with w have "i < next_id db" by (simp add: wf_def list_all_iff)
  with ic show ?thesis by blast
qed

lemma from_attributes_row_of: "from_attributes (row_of r) = Inr r"
  by (simp add: from_attributes_def row_of_def)

lemma from_attributes_InrD: "from_attributes t = Inr r \<Longrightarrow> row_of r = t"
  by (auto simp: from_attributes_def row_of_def split: option.splits)

lemma from_attributes_list_map: "from_attributes_list (map row_of rs) = Inr rs"
  by (induction rs) (simp_all add: from_attributes_row_of)

lemma from_attributes_list_InrD: "from_attributes_list ts = Inr rs \<Longrightarrow> map row_of rs = ts"
  by (induction ts arbitrary: rs) (auto split: sum.splits dest: from_attributes_InrD)

lemma wf_from_attributes:
  "wf db \<Longrightarrow> t \<in> set (rows db) \<Longrightarrow> \<exists>r. from_attributes t = Inr r"
  by (auto dest!: wf_rowD simp: from_attributes_def)

lemma complete_rows_responses:
  "list_all (\<lambda>t. id' t \<noteq> None \<and> created_at t \<noteq> None) ts \<Longrightarrow> \<exists>rs. ts = map row_of rs"
proof (induction ts)
  case Nil
  then show ?case by simp
next
  case (Cons t ts)
  then obtain rs where rs: "ts = map row_of rs" by auto
  from Cons.prems obtain r where "from_attributes t = Inr r"
    by (auto simp: from_attributes_def)
  then have "t = row_of r" by (simp add: from_attributes_InrD)
  with rs have "t # ts = map row_of (r # rs)" by simp
  then show ?case by (rule exI)
qed

lemma wf_GET_tasks: "wf db \<Longrightarrow> \<exists>rs. GET_tasks db = Inr rs \<and> map row_of rs = rows db"
proof -
  assume "wf db"
  then obtain rs where rs: "rows db = map row_of rs"
    using complete_rows_responses [of "rows db"] by (auto simp: wf_def)
  then show ?thesis
    by (auto simp: GET_tasks_def get_tasks_def query_all_def from_attributes_list_map)
qed

lemma ids_map_row_of: "List.map_filter id' (map row_of rs) = map r_id rs"
  by (induction rs) (simp_all add: row_of_def)

subsection \<open>Updating a row\<close>

lemma assigned_keys [simp]:
  "id' (assigned task t) = id' t" "created_at (assigned task t) = created_at t"
  by (simp_all add: assigned_def)

lemma update_task_eq:
  "update_task i task db =
     (case query_filter_id_first db i of
        None \<Rightarrow> (Inl not_found, db)
      | Some t \<Rightarrow>
          (refresh (commit_update db (assigned task t)) (assigned task t),
           commit_update db (assigned task t)))"
  by (simp add: update_task_def assigned_def Let_def split: option.splits)

lemma map_filter_replace:
  "List.map_filter id' (map (\<lambda>r. if id' r = id' t then t else r) ts) = List.map_filter id' ts"
  by (induction ts) (auto split: option.splits)

lemma ids_commit_update [simp]: "ids (commit_update db t) = ids db"
  by (simp add: ids_def commit_update_def map_filter_replace)

lemma next_id_commit_update [simp]: "next_id (commit_update db t) = next_id db"
  by (simp add: commit_update_def)

lemma find_replace:
  "find (\<lambda>r. id' r = id' t) (map (\<lambda>r. if id' r = id' t then t else r) ts) =
     (if \<exists>r\<in>set ts. id' r = id' t then Some t else None)"
  by (induction ts) auto

lemma query_commit_update:
  "id' t = Some i \<Longrightarrow> i \<in> set (ids db) \<Longrightarrow> query_filter_id_first (commit_update db t) i = Some t"
  using find_replace [of t "rows db"]
  by (auto simp: query_filter_id_first_def commit_update_def in_ids_iff)

lemma refresh_commit_update:
  "id' t = Some i \<Longrightarrow> i \<in> set (ids db) \<Longrightarrow> refresh (commit_update db t) t = Inr t"
  by (simp add: refresh_def query_commit_update)

lemma wf_unique:
  assumes "wf db" "t \<in> set (rows db)" "r \<in> set (rows db)" "id' r = id' t"
  shows "r = t"
  using wf_distinct_keys [OF assms(1)] assms(2-4)
  by (meson distinct_map inj_onD)

lemma stamps_commit_update:
  assumes "wf db" "old \<in> set (rows db)" "id' t = id' old" "created_at t = created_at old"
  shows "stamps (commit_update db t) = stamps db"
proof -
  have "\<And>r. r \<in> set (rows db) \<Longrightarrow> id' r = id' t \<Longrightarrow> created_at r = created_at t"
    using wf_unique [OF assms(1,2)] assms(3,4) by auto
  then show ?thesis
    by (auto simp: stamps_def commit_update_def)
qed

lemma wf_commit_update:
  assumes "wf db" "id' t \<noteq> None" "created_at t \<noteq> None"
  shows "wf (commit_update db t)"
proof -
  have "list_all (\<lambda>t. id' t \<noteq> None \<and> created_at t \<noteq> None) (rows (commit_update db t))"
    using assms by (auto simp: wf_def list_all_iff commit_update_def)
  with assms(1) show ?thesis by (simp add: wf_def)
qed

lemma rows_commit_update_same:
  assumes "wf db" "t \<in> set (rows db)"
  shows "commit_update db t = db"
proof -
  have "map (\<lambda>r. if id' r = id' t then t else r) (rows db) = rows db"
    using wf_unique [OF assms] by (intro map_idI) auto
  then show ?thesis by (simp add: commit_update_def)
qed

subsection \<open>Deleting a row\<close>

lemma map_filter_remove:
  "List.map_filter id' (filter (\<lambda>r. id' r \<noteq> Some i) ts) = filter (\<lambda>j. j \<noteq> i) (List.map_filter id' ts)"
  by (induction ts) (auto split: option.splits)

lemma ids_delete_commit:
  "id' t = Some i \<Longrightarrow> ids (delete_commit db t) = filter (\<lambda>j. j \<noteq> i) (ids db)"
  by (simp add: ids_def delete_commit_def map_filter_remove)

lemma stamps_delete_commit:
  "stamps (delete_commit db t) = filter (\<lambda>k. fst k \<noteq> id' t) (stamps db)"
  by (simp add: stamps_def delete_commit_def filter_map comp_def)

lemma wf_delete_commit:
  assumes "wf db" "id' t = Some i"
  shows "wf (delete_commit db t)"
proof -
  have "list_all (\<lambda>t. id' t \<noteq> None \<and> created_at t \<noteq> None) (rows (delete_commit db t))"
    using assms(1) by (auto simp: wf_def list_all_iff delete_commit_def)
  moreover have "sorted_wrt (<) (ids (delete_commit db t))"
    using assms by (simp add: ids_delete_commit wf_def sorted_wrt_filter)
  moreover have "next_id (delete_commit db t) = next_id db"
    by (simp add: delete_commit_def)
  then have "list_all (\<lambda>j. j < next_id (delete_commit db t)) (ids (delete_commit db t))"
    using assms by (simp add: ids_delete_commit wf_def list_all_iff)
  ultimately show ?thesis by (simp add: wf_def)
qed

lemma delete_task_eq:
  "delete_task i db =
     (if i \<in> set (ids db)
      then (Inr [(''message'', ''Task deleted successfully'')],
            db\<lparr>rows := filter (\<lambda>r. id' r \<noteq> Some i) (rows db)\<rparr>)
      else (Inl not_found, db))"
proof (cases "query_filter_id_first db i")
  case None
  then have "i \<notin> set (ids db)" by (simp add: query_None_iff)
  with None show ?thesis by (simp add: delete_task_def)
next
  case (Some t)
  then have "id' t = Some i" "i \<in> set (ids db)"
    using query_SomeD [OF Some] by (auto simp: in_ids_iff)
  with Some show ?thesis by (simp add: delete_task_def delete_commit_def)
qed

subsection \<open>Inserting a row\<close>

lemma find_append_last: "\<forall>x\<in>set xs. \<not> P x \<Longrightarrow> P y \<Longrightarrow> find P (xs @ [y]) = Some y"
  by (induction xs) auto

lemma wf_next_id_fresh: "wf db \<Longrightarrow> t \<in> set (rows db) \<Longrightarrow> id' t \<noteq> Some (next_id db)"
  by (auto dest: wf_rowD)

lemma create_task_eq:
  assumes "wf db"
  shows "create_task now task db =
     (Inr (inserted now task db),
      \<lparr>rows = rows db @ [inserted now task db], next_id = next_id db + 1\<rparr>)"
proof -
  have "find (\<lambda>t. id' t = Some (next_id db)) (rows db @ [inserted now task db])
          = Some (inserted now task db)"
    using wf_next_id_fresh [OF assms] by (intro find_append_last) (auto simp: inserted_def)
  then show ?thesis
    by (simp add: create_task_def add_commit_def Let_def refresh_def
        query_filter_id_first_def inserted_def)
qed

lemma ids_append:
  "ids \<lparr>rows = ts @ [t], next_id = n\<rparr> = List.map_filter id' ts @ (case id' t of None \<Rightarrow> [] | Some i \<Rightarrow> [i])"
  by (simp add: ids_def List.map_filter_def split: option.splits)

lemma wf_insert:
  assumes "wf db"
  shows "wf \<lparr>rows = rows db @ [inserted now task db], next_id = next_id db + 1\<rparr>"
proof -
  let ?db' = "\<lparr>rows = rows db @ [inserted now task db], next_id = next_id db + 1\<rparr>"
  have ids': "ids ?db' = ids db @ [next_id db]"
    by (simp add: ids_append inserted_def) (simp add: ids_def)
  have below: "\<forall>i\<in>set (ids db). i < next_id db"
    using assms by (simp add: wf_def list_all_iff)
  have "list_all (\<lambda>t. id' t \<noteq> None \<and> created_at t \<noteq> None) (rows ?db')"
    using assms by (simp add: wf_def inserted_def)
  moreover have "sorted_wrt (<) (ids ?db')"
    using assms below by (simp add: ids' wf_def sorted_wrt_append)
  moreover have "list_all (\<lambda>i. i < next_id ?db') (ids ?db')"
    using below by (auto simp: ids' list_all_iff)
  ultimately show ?thesis by (simp add: wf_def)
qed

lemma from_attributes_inserted:
  "from_attributes (inserted now task db) =
     Inr \<lparr>r_title = c_title task, r_description = c_description task,
          r_completed = c_completed task, r_id = next_id db, r_created_at = now\<rparr>"
  by (simp add: from_attributes_def inserted_def)

subsection \<open>The endpoints\<close>

lemma assigned_parse:
  "title (assigned (parse_TaskUpdate b) old) = (case b_title b of Value v \<Rightarrow> v | _ \<Rightarrow> title old)"
  "description (assigned (parse_TaskUpdate b) old) =
     (case b_description b of Value v \<Rightarrow> Some v | _ \<Rightarrow> description old)"
  "completed (assigned (parse_TaskUpdate b) old) =
     (case b_completed b of Value v \<Rightarrow> v | _ \<Rightarrow> completed old)"
  by (simp_all add: assigned_def parse_TaskUpdate_def split: field.splits)

lemma PUT_task_absent:
  "task_id \<notin> set (ids db) \<Longrightarrow> PUT_task task_id b db = (Inl not_found, db)"
  by (simp add: PUT_task_def update_task_eq query_None_iff [symmetric])

lemma PUT_task_present:
  assumes "wf db" "old \<in> set (rows db)" "id' old = Some task_id"
  shows "PUT_task task_id b db =
           (from_attributes (assigned (parse_TaskUpdate b) old),
            commit_update db (assigned (parse_TaskUpdate b) old))"
proof -
  have q: "query_filter_id_first db task_id = Some old"
    using assms by (rule wf_query)
  have "task_id \<in> set (ids db)"
    using assms(2,3) by (auto simp: in_ids_iff)
  then have "refresh (commit_update db (assigned (parse_TaskUpdate b) old))
               (assigned (parse_TaskUpdate b) old) = Inr (assigned (parse_TaskUpdate b) old)"
    using assms(3) by (intro refresh_commit_update) simp_all
  with q show ?thesis by (simp add: PUT_task_def update_task_eq)
qed

lemma GET_task_absent: "task_id \<notin> set (ids db) \<Longrightarrow> GET_task task_id db = Inl not_found"
  by (simp add: GET_task_def get_task_def query_None_iff [symmetric])

lemma GET_task_present:
  "wf db \<Longrightarrow> t \<in> set (rows db) \<Longrightarrow> id' t = Some task_id \<Longrightarrow>
     GET_task task_id db = from_attributes t"
  by (simp add: GET_task_def get_task_def wf_query)

lemma POST_tasks_accepted:
  assumes "wf db" "parse_TaskCreate b = Inr task"
  shows "POST_tasks now b db =
     (Inr \<lparr>r_title = c_title task, r_description = c_description task,
           r_completed = c_completed task, r_id = next_id db, r_created_at = now\<rparr>,
      \<lparr>rows = rows db @ [inserted now task db], next_id = next_id db + 1\<rparr>)"
  using assms by (simp add: POST_tasks_def create_task_eq from_attributes_inserted)

lemma POST_tasks_rejected:
  "parse_TaskCreate b = Inl e \<Longrightarrow> POST_tasks now b db = (Inl e, db)"
  by (simp add: POST_tasks_def)

lemma parse_TaskCreate_Inr:
  "parse_TaskCreate b = Inr task \<longleftrightarrow>
     (\<exists>t. b_title b = Value t \<and> b_completed b \<noteq> Null \<and>
        task = \<lparr>c_title = t,
                c_description = (case b_description b of
                                   Omitted \<Rightarrow> Some [] | Null \<Rightarrow> None | Value d \<Rightarrow> Some d),
                c_completed = (case b_completed b of Value c \<Rightarrow> c | _ \<Rightarrow> False)\<rparr>)"
  by (cases "b_title b"; cases "b_completed b"; cases "b_description b")
     (auto simp: parse_TaskCreate_def)

subsection \<open>The states of the store\<close>

lemma wf_empty_database: "wf empty_database"
  by (simp add: wf_def empty_database_def ids_def)

lemma handle_cases:
  assumes "wf db"
  shows "snd (handle now req db) = db
     \<or> (\<exists>task. snd (handle now req db) =
            \<lparr>rows = rows db @ [inserted now task db], next_id = next_id db + 1\<rparr>)
     \<or> (\<exists>task old. old \<in> set (rows db) \<and>
            snd (handle now req db) = commit_update db (assigned task old))
     \<or> (\<exists>i. i \<in> set (ids db) \<and>
            snd (handle now req db) = db\<lparr>rows := filter (\<lambda>r. id' r \<noteq> Some i) (rows db)\<rparr>)"
proof (cases req)
  case (ReqCreate b)
  show ?thesis
  proof (cases "parse_TaskCreate b")
    case (Inl e)
    with ReqCreate show ?thesis by (simp add: POST_tasks_rejected)
  next
    case (Inr task)
    with ReqCreate assms have "snd (handle now req db) =
        \<lparr>rows = rows db @ [inserted now task db], next_id = next_id db + 1\<rparr>"
      by (simp add: POST_tasks_accepted)
    then show ?thesis by blast
  qed
next
  case (ReqUpdate i b)
  show ?thesis
  proof (cases "i \<in> set (ids db)")
    case False
    with ReqUpdate show ?thesis by (simp add: PUT_task_absent)
  next
    case True
    then obtain old where old: "old \<in> set (rows db)" "id' old = Some i"
      by (auto simp: in_ids_iff)
    with ReqUpdate assms have "snd (handle now req db) =
        commit_update db (assigned (parse_TaskUpdate b) old)"
      by (simp add: PUT_task_present)
    with old(1) show ?thesis by blast
  qed
next
  case (ReqDelete i)
  show ?thesis
  proof (cases "i \<in> set (ids db)")
    case False
    with ReqDelete show ?thesis by (simp add: DELETE_task_def delete_task_eq)
  next
    case True
    with ReqDelete have "snd (handle now req db) =
        db\<lparr>rows := filter (\<lambda>r. id' r \<noteq> Some i) (rows db)\<rparr>"
      by (simp add: DELETE_task_def delete_task_eq)
    with True show ?thesis by blast
  qed
qed simp_all

lemma wf_remove:
  assumes "wf db" "i \<in> set (ids db)"
  shows "wf (db\<lparr>rows := filter (\<lambda>r. id' r \<noteq> Some i) (rows db)\<rparr>)"
proof -
  from assms(2) obtain t :: Task where "id' t = Some i" by (auto simp: in_ids_iff)
  then show ?thesis
    using wf_delete_commit [OF assms(1), of t i] by (simp add: delete_commit_def)
qed

lemma wf_assigned:
  assumes "wf db" "old \<in> set (rows db)"
  shows "wf (commit_update db (assigned task old))"
  using wf_rowD [OF assms] by (intro wf_commit_update [OF assms(1)]) auto

lemma wf_example_database: "wf example_database"
  by (simp add: wf_def example_database_def example_task_def ids_def)

lemma wf_handle: "wf db \<Longrightarrow> wf (snd (handle now req db))"
  using handle_cases [of db now req]
  by (auto simp: wf_insert wf_assigned wf_remove)

lemma reachable_wf: "reachable db \<Longrightarrow> wf db"
  by (induction rule: reachable.induct) (simp_all add: wf_empty_database wf_handle)

section \<open>The claims\<close>

text \<open>
  C1. For a task in the store, \<open>PUT /tasks/{id}\<close> answers with the task in which each key
  of the body that carries a value has that value and every other one of \<open>title\<close>,
  \<open>description\<close> and \<open>completed\<close> has its prior value; \<open>id\<close> and \<open>created_at\<close> are the
  task's own, the row of that task is the only one rewritten, and a following
  \<open>GET /tasks/{id}\<close> returns the same object. It holds for every body, so for every strict
  subset of the keys; with only a title supplied, description and completed stay.
\<close>

theorem update_changes_supplied_fields_only:
  assumes "wf db" and "old \<in> set (rows db)" and "id' old = Some task_id"
  shows "\<exists>t db'. PUT_task task_id b db = (Inr t, db')
      \<and> r_title t = (case b_title b of Value v \<Rightarrow> v | _ \<Rightarrow> title old)
      \<and> r_description t = (case b_description b of Value v \<Rightarrow> Some v | _ \<Rightarrow> description old)
      \<and> r_completed t = (case b_completed b of Value v \<Rightarrow> v | _ \<Rightarrow> completed old)
      \<and> id' old = Some (r_id t) \<and> created_at old = Some (r_created_at t)
      \<and> rows db' = map (\<lambda>r. if id' r = Some task_id then row_of t else r) (rows db)
      \<and> next_id db' = next_id db
      \<and> GET_task task_id db' = Inr t"
proof -
  let ?new = "assigned (parse_TaskUpdate b) old"
  let ?db' = "commit_update db ?new"
  from wf_rowD [OF assms(1,2)] obtain c where c: "created_at old = Some c" by auto
  define t where "t = \<lparr>r_title = title ?new, r_description = description ?new,
    r_completed = completed ?new, r_id = task_id, r_created_at = c\<rparr>"
  have fa: "from_attributes ?new = Inr t"
    using assms(3) c by (simp add: from_attributes_def t_def)
  then have row: "row_of t = ?new" by (rule from_attributes_InrD)
  have put: "PUT_task task_id b db = (Inr t, ?db')"
    using PUT_task_present [OF assms] fa by simp
  have "task_id \<in> set (ids db)"
    using assms(2,3) by (auto simp: in_ids_iff)
  then have "query_filter_id_first ?db' task_id = Some ?new"
    using assms(3) by (intro query_commit_update) simp_all
  then have get: "GET_task task_id ?db' = Inr t"
    using fa by (simp add: GET_task_def get_task_def)
  have rows': "rows ?db' = map (\<lambda>r. if id' r = Some task_id then row_of t else r) (rows db)"
    using assms(3) by (simp add: commit_update_def row)
  have fields: "r_title t = (case b_title b of Value v \<Rightarrow> v | _ \<Rightarrow> title old)"
    "r_description t = (case b_description b of Value v \<Rightarrow> Some v | _ \<Rightarrow> description old)"
    "r_completed t = (case b_completed b of Value v \<Rightarrow> v | _ \<Rightarrow> completed old)"
    by (simp_all add: t_def assigned_parse)
  have keys: "id' old = Some (r_id t)" "created_at old = Some (r_created_at t)"
    using assms(3) c by (simp_all add: t_def)
  from put fields keys rows' get show ?thesis by simp
qed

text \<open>
  The spec's example: the task \<open>Original\<close> / \<open>Keep This\<close> / not completed, updated with
  only the title \<open>New Title\<close>.
\<close>

theorem update_changes_supplied_fields_only_witness:
  "wf example_database \<and> example_task \<in> set (rows example_database) \<and> id' example_task = Some 1
   \<and> (\<exists>t db'. PUT_task 1 (only_title ''New Title'') example_database = (Inr t, db')
        \<and> r_title t = ''New Title'' \<and> r_description t = Some ''Keep This''
        \<and> r_completed t = False \<and> r_id t = 1 \<and> r_created_at t = 100
        \<and> rows db' = [row_of t] \<and> GET_task 1 db' = Inr t)"
proof -
  have h1: "wf example_database" by (rule wf_example_database)
  have h2: "example_task \<in> set (rows example_database)" by (simp add: example_database_def)
  have h3: "id' example_task = Some 1" by (simp add: example_task_def)
  from update_changes_supplied_fields_only [OF h1 h2 h3, of "only_title ''New Title''"]
  obtain t db' where "PUT_task 1 (only_title ''New Title'') example_database = (Inr t, db')"
    "r_title t = ''New Title''" "r_description t = Some ''Keep This''"
    "r_completed t = False" "r_id t = 1" "r_created_at t = 100"
    "rows db' = [row_of t]" "GET_task 1 db' = Inr t"
    by (auto simp: only_title_def empty_body_def example_task_def example_database_def)
  with h1 h2 h3 show ?thesis by blast
qed

text \<open>
  C3. A \<open>POST /tasks\<close> whose body carries a title and leaves out \<open>description\<close> and
  \<open>completed\<close> answers 200 with the created task: the description is the empty string,
  not \<open>null\<close>, completed is false, the id is the integer the store assigned and
  \<open>created_at\<close> is the store's time of insertion. The task is the row the store has
  gained, after the rows it had, and the next identity value has moved on by one.
\<close>

theorem create_with_title_only:
  assumes "wf db" and "b_title b = Value t"
    and "b_description b = Omitted" and "b_completed b = Omitted"
  shows "\<exists>r db'. POST_tasks now b db = (Inr r, db')
      \<and> status_code (fst (POST_tasks now b db)) = 200
      \<and> r_title r = t \<and> r_description r = Some '''' \<and> r_completed r = False
      \<and> r_id r = next_id db \<and> r_created_at r = now
      \<and> rows db' = rows db @ [row_of r] \<and> next_id db' = next_id db + 1
      \<and> GET_task (r_id r) db' = Inr r"
proof -
  let ?task = "\<lparr>c_title = t, c_description = Some '''', c_completed = False\<rparr>"
  let ?r = "\<lparr>r_title = t, r_description = Some '''', r_completed = False,
             r_id = next_id db, r_created_at = now\<rparr>"
  let ?db' = "\<lparr>rows = rows db @ [inserted now ?task db], next_id = next_id db + 1\<rparr>"
  have "parse_TaskCreate b = Inr ?task"
    using assms(2-4) by (simp add: parse_TaskCreate_def)
  from POST_tasks_accepted [OF assms(1) this, of now]
  have post: "POST_tasks now b db = (Inr ?r, ?db')" by simp
  then have ok: "status_code (fst (POST_tasks now b db)) = 200" by simp
  have row: "row_of ?r = inserted now ?task db" by (simp add: row_of_def inserted_def)
  then have rows': "rows ?db' = rows db @ [row_of ?r]" by simp
  have "wf ?db'" using assms(1) by (rule wf_insert)
  moreover have "inserted now ?task db \<in> set (rows ?db')" by simp
  moreover have "id' (inserted now ?task db) = Some (next_id db)" by (simp add: inserted_def)
  ultimately have "GET_task (next_id db) ?db' = from_attributes (inserted now ?task db)"
    by (rule GET_task_present)
  then have get: "GET_task (r_id ?r) ?db' = Inr ?r"
    by (simp add: from_attributes_inserted)
  from post ok rows' get show ?thesis
    by (intro exI [of _ ?r] exI [of _ ?db'] conjI) simp_all
qed

theorem create_with_title_only_witness:
  "wf example_database \<and> b_title (only_title ''X'') = Value ''X''
   \<and> b_description (only_title ''X'') = Omitted \<and> b_completed (only_title ''X'') = Omitted
   \<and> (\<exists>r db'. POST_tasks 200 (only_title ''X'') example_database = (Inr r, db')
        \<and> r_title r = ''X'' \<and> r_description r = Some '''' \<and> r_completed r = False
        \<and> r_id r = 2 \<and> r_created_at r = 200
        \<and> rows db' = [example_task, row_of r] \<and> next_id db' = 3
        \<and> GET_task 2 db' = Inr r)"
proof -
  have h1: "wf example_database" by (rule wf_example_database)
  have h2: "b_title (only_title ''X'') = Value ''X''"
    and h3: "b_description (only_title ''X'') = Omitted"
    and h4: "b_completed (only_title ''X'') = Omitted"
    by (simp_all add: only_title_def empty_body_def)
  have n: "next_id example_database = 2" "rows example_database = [example_task]"
    by (simp_all add: example_database_def)
  from create_with_title_only [OF h1 h2 h3 h4, of 200]
  obtain r db' where c: "POST_tasks 200 (only_title ''X'') example_database = (Inr r, db')"
    "r_title r = ''X''" "r_description r = Some ''''" "r_completed r = False"
    "r_id r = next_id example_database" "r_created_at r = 200"
    "rows db' = rows example_database @ [row_of r]"
    "next_id db' = next_id example_database + 1"
    "GET_task (r_id r) db' = Inr r"
    by blast
  from c(5) n have a: "r_id r = 2" by simp
  from c(7) n have b: "rows db' = [example_task, row_of r]" by simp
  from c(8) n have d: "next_id db' = 3" by simp
  from c(9) a have g: "GET_task 2 db' = Inr r" by simp
  from c(1-4) a c(6) b d g
  have "\<exists>r db'. POST_tasks 200 (only_title ''X'') example_database = (Inr r, db')
        \<and> r_title r = ''X'' \<and> r_description r = Some '''' \<and> r_completed r = False
        \<and> r_id r = 2 \<and> r_created_at r = 200
        \<and> rows db' = [example_task, row_of r] \<and> next_id db' = 3
        \<and> GET_task 2 db' = Inr r"
    by (intro exI [of _ r] exI [of _ db'] conjI)
  with h1 h2 h3 h4 show ?thesis by (intro conjI)
qed

text \<open>
  C10. A \<open>POST /tasks\<close> whose body carries a title and sends \<open>description\<close> as \<open>null\<close>
  creates a task whose description is \<open>null\<close>, in the response and in the stored row: the
  description of the created task is the empty string when the key is left out, \<open>null\<close>
  when it is sent as \<open>null\<close>, and the value sent otherwise.
\<close>

theorem create_with_null_description:
  assumes "wf db" and "b_title b = Value t" and "b_completed b \<noteq> Null"
  shows "\<exists>r db'. POST_tasks now b db = (Inr r, db')
      \<and> r_description r =
          (case b_description b of Omitted \<Rightarrow> Some '''' | Null \<Rightarrow> None | Value d \<Rightarrow> Some d)
      \<and> (b_description b = Null \<longrightarrow> r_description r = None)
      \<and> rows db' = rows db @ [row_of r]"
proof -
  from assms(2,3) obtain task where task: "parse_TaskCreate b = Inr task"
    and d: "c_description task =
      (case b_description b of Omitted \<Rightarrow> Some '''' | Null \<Rightarrow> None | Value d \<Rightarrow> Some d)"
    by (auto simp: parse_TaskCreate_Inr)
  from POST_tasks_accepted [OF assms(1) task, of now] d show ?thesis
    by (auto simp: row_of_def inserted_def)
qed

theorem create_with_null_description_witness:
  "wf example_database \<and> b_title (only_title ''X''\<lparr>b_description := Null\<rparr>) = Value ''X''
   \<and> b_completed (only_title ''X''\<lparr>b_description := Null\<rparr>) \<noteq> Null
   \<and> (\<exists>r db'. POST_tasks 200 (only_title ''X''\<lparr>b_description := Null\<rparr>) example_database
                  = (Inr r, db')
        \<and> r_description r = None \<and> rows db' = [example_task, row_of r])"
proof -
  let ?b = "only_title ''X''\<lparr>b_description := Null\<rparr>"
  have h1: "wf example_database" by (rule wf_example_database)
  have h2: "b_title ?b = Value ''X''" and h3: "b_completed ?b \<noteq> Null"
    by (simp_all add: only_title_def empty_body_def)
  from create_with_null_description [OF h1 h2 h3, of 200]
  have "\<exists>r db'. POST_tasks 200 ?b example_database = (Inr r, db')
        \<and> r_description r = None \<and> rows db' = [example_task, row_of r]"
    by (auto simp: only_title_def empty_body_def example_database_def)
  with h1 h2 h3 show ?thesis by blast
qed

text \<open>
  C7. When \<open>POST /tasks\<close> has created a task, the \<open>GET /tasks/{id}\<close> that follows it with
  the assigned id returns the object the creation returned. (A body is created from
  exactly when it passes validation.)
\<close>

theorem read_after_create:
  assumes "wf db" and "POST_tasks now b db = (Inr r, db')"
  shows "GET_task (r_id r) db' = Inr r \<and> status_code (GET_task (r_id r) db') = 200"
proof -
  from assms(2) obtain task where task: "parse_TaskCreate b = Inr task"
    by (cases "parse_TaskCreate b") (auto simp: POST_tasks_def)
  let ?db' = "\<lparr>rows = rows db @ [inserted now task db], next_id = next_id db + 1\<rparr>"
  from POST_tasks_accepted [OF assms(1) task, of now] assms(2)
  have r: "from_attributes (inserted now task db) = Inr r" and db': "db' = ?db'"
    by (simp_all add: from_attributes_inserted)
  have "r_id r = next_id db"
    using r by (auto simp: from_attributes_inserted)
  moreover have "wf ?db'" using assms(1) by (rule wf_insert)
  moreover have "inserted now task db \<in> set (rows ?db')" by simp
  moreover have "id' (inserted now task db) = Some (next_id db)" by (simp add: inserted_def)
  ultimately have "GET_task (r_id r) ?db' = from_attributes (inserted now task db)"
    by (simp add: GET_task_present)
  with r db' show ?thesis by simp
qed

theorem read_after_create_witness:
  "wf example_database
   \<and> POST_tasks 200 (only_title ''X'') example_database =
       (Inr \<lparr>r_title = ''X'', r_description = Some '''', r_completed = False,
             r_id = 2, r_created_at = 200\<rparr>,
        \<lparr>rows = [example_task,
                 \<lparr>id' = Some 2, title = ''X'', description = Some '''', completed = False,
                  created_at = Some 200\<rparr>],
         next_id = 3\<rparr>)
   \<and> GET_task 2 \<lparr>rows = [example_task,
                 \<lparr>id' = Some 2, title = ''X'', description = Some '''', completed = False,
                  created_at = Some 200\<rparr>],
         next_id = 3\<rparr> =
       Inr \<lparr>r_title = ''X'', r_description = Some '''', r_completed = False,
            r_id = 2, r_created_at = 200\<rparr>"
proof -
  have h1: "wf example_database" by (rule wf_example_database)
  have "parse_TaskCreate (only_title ''X'') =
      Inr \<lparr>c_title = ''X'', c_description = Some '''', c_completed = False\<rparr>"
    by (simp add: parse_TaskCreate_def only_title_def empty_body_def)
  from POST_tasks_accepted [OF h1 this, of 200]
  have h2: "POST_tasks 200 (only_title ''X'') example_database =
       (Inr \<lparr>r_title = ''X'', r_description = Some '''', r_completed = False,
             r_id = 2, r_created_at = 200\<rparr>,
        \<lparr>rows = [example_task,
                 \<lparr>id' = Some 2, title = ''X'', description = Some '''', completed = False,
                  created_at = Some 200\<rparr>],
         next_id = 3\<rparr>)"
    by (simp add: inserted_def example_database_def)
  from read_after_create [OF h1 h2] h1 h2 show ?thesis by simp
qed

lemma bind_key_in_range: "in_key_range task_id \<Longrightarrow> bind_key task_id = Inr task_id"
  by (simp add: bind_key_def)

text \<open>
  C4, as the code has it. For an id that no row of the store has and that the store's
  integer key can hold, \<open>GET /tasks/{id}\<close>, \<open>DELETE /tasks/{id}\<close> and a
  \<open>PUT /tasks/{id}\<close> whose body passes validation each answer with status 404 and the
  body \<open>{"detail": "Task not found"}\<close>.
\<close>

theorem absent_id_is_not_found_for_valid_requests:
  assumes "task_id \<notin> set (ids db)" and "in_key_range task_id"
    and "validate_body rb = Inr b"
  shows "error_response (GET_request task_id db)
        = (404, Some [(''detail'', ''Task not found'')])
    \<and> error_response (fst (PUT_request task_id rb db))
        = (404, Some [(''detail'', ''Task not found'')])
    \<and> error_response (fst (DELETE_request task_id db))
        = (404, Some [(''detail'', ''Task not found'')])"
proof -
  have nf: "error_response (Inl not_found :: http_error + 'a)
      = (404, Some [(''detail'', ''Task not found'')])"
    by (simp add: error_response_def not_found_def)
  from assms(2) have k: "bind_key task_id = Inr task_id" by (rule bind_key_in_range)
  have "GET_request task_id db = Inl not_found"
    using assms(1) by (simp add: GET_request_def k GET_task_absent)
  moreover have "fst (PUT_request task_id rb db) = Inl not_found"
    using assms(1,3) by (simp add: PUT_request_def k PUT_task_absent)
  moreover have "fst (DELETE_request task_id db) = Inl not_found"
    using assms(1) by (simp add: DELETE_request_def k DELETE_task_def delete_task_eq)
  ultimately show ?thesis by (simp only: nf simp_thms)
qed

text \<open>The id 9999 of the tests, in the example store, with a body that sets the title.\<close>

theorem absent_id_is_not_found_for_valid_requests_witness:
  "9999 \<notin> set (ids example_database) \<and> in_key_range 9999
   \<and> validate_body (Json (only_title ''Updated'')) = Inr (only_title ''Updated'')
   \<and> error_response (GET_request 9999 example_database)
       = (404, Some [(''detail'', ''Task not found'')])
   \<and> error_response (fst (PUT_request 9999 (Json (only_title ''Updated'')) example_database))
       = (404, Some [(''detail'', ''Task not found'')])
   \<and> error_response (fst (DELETE_request 9999 example_database))
       = (404, Some [(''detail'', ''Task not found'')])"
proof -
  have h1: "9999 \<notin> set (ids example_database)"
    by (simp add: ids_def example_database_def example_task_def)
  have h2: "in_key_range 9999" by (simp add: in_key_range_def)
  have h3: "validate_body (Json (only_title ''Updated'')) = Inr (only_title ''Updated'')"
    by simp
  from absent_id_is_not_found_for_valid_requests [OF h1 h2 h3] h1 h2 h3
  show ?thesis by (intro conjI) simp_all
qed

text \<open>
  C4 as stated fails in the example store, where no row has the id 9999 or the id
  \<open>2 ^ 63\<close>: a \<open>PUT /tasks/9999\<close> that carries no body is answered by the validation of
  the body, with 422, and a \<open>GET /tasks/9223372036854775808\<close> ends in the driver, with 500.
\<close>

theorem absent_id_is_not_always_404:
  "9999 \<notin> set (ids example_database)
   \<and> status_code (fst (PUT_request 9999 Missing example_database)) = 422
   \<and> error_response (fst (PUT_request 9999 Missing example_database))
       \<noteq> (404, Some [(''detail'', ''Task not found'')])
   \<and> 2 ^ 63 \<notin> set (ids example_database)
   \<and> status_code (GET_request (2 ^ 63) example_database) = 500
   \<and> error_response (GET_request (2 ^ 63) example_database)
       \<noteq> (404, Some [(''detail'', ''Task not found'')])"
  by (simp add: ids_def example_database_def example_task_def PUT_request_def
      GET_request_def bind_key_def in_key_range_def error_response_def)

text \<open>
  C8. For an id that no row of the store has, \<open>PUT /tasks/{id}\<close> and \<open>DELETE /tasks/{id}\<close>
  answer 404 and return the store as it was; and in any store, a \<open>PUT\<close> or \<open>DELETE\<close> that
  answers 404 returns the store as it was.
\<close>

theorem not_found_leaves_store_unchanged:
  "(task_id \<notin> set (ids db) \<longrightarrow>
      PUT_task task_id b db = (Inl (HTTPException 404 ''Task not found''), db)
      \<and> DELETE_task task_id db = (Inl (HTTPException 404 ''Task not found''), db))
   \<and> (status_code (fst (PUT_task task_id b db)) = 404 \<longrightarrow> snd (PUT_task task_id b db) = db)
   \<and> (status_code (fst (DELETE_task task_id db)) = 404 \<longrightarrow> snd (DELETE_task task_id db) = db)"
proof (intro conjI impI)
  assume "task_id \<notin> set (ids db)"
  then show "PUT_task task_id b db = (Inl (HTTPException 404 ''Task not found''), db)"
    and "DELETE_task task_id db = (Inl (HTTPException 404 ''Task not found''), db)"
    by (simp_all add: PUT_task_absent DELETE_task_def delete_task_eq not_found_def)
next
  assume s: "status_code (fst (PUT_task task_id b db)) = 404"
  show "snd (PUT_task task_id b db) = db"
  proof (cases "query_filter_id_first db task_id")
    case None
    then show ?thesis by (simp add: PUT_task_def update_task_eq)
  next
    case (Some t)
    with s have False
      by (auto simp: PUT_task_def update_task_eq refresh_def from_attributes_def
          split: option.splits)
    then show ?thesis ..
  qed
next
  assume "status_code (fst (DELETE_task task_id db)) = 404"
  then show "snd (DELETE_task task_id db) = db"
    by (simp add: DELETE_task_def delete_task_eq split: if_splits)
qed

theorem not_found_leaves_store_unchanged_witness:
  "9999 \<notin> set (ids example_database)
   \<and> PUT_task 9999 (only_title ''Updated'') example_database
       = (Inl (HTTPException 404 ''Task not found''), example_database)
   \<and> DELETE_task 9999 example_database
       = (Inl (HTTPException 404 ''Task not found''), example_database)
   \<and> status_code (fst (PUT_task 9999 (only_title ''Updated'') example_database)) = 404
   \<and> snd (PUT_task 9999 (only_title ''Updated'') example_database) = example_database
   \<and> status_code (fst (DELETE_task 9999 example_database)) = 404
   \<and> snd (DELETE_task 9999 example_database) = example_database"
proof -
  have h: "9999 \<notin> set (ids example_database)"
    by (simp add: ids_def example_database_def example_task_def)
  from not_found_leaves_store_unchanged [of 9999 example_database "only_title ''Updated''"] h
  show ?thesis by simp
qed

text \<open>
  C9. For a task in the store, a \<open>PUT /tasks/{id}\<close> in whose body each of \<open>title\<close>,
  \<open>description\<close> and \<open>completed\<close> is \<open>null\<close> or left out (the empty body among them)
  answers 200 with the task as it was and returns the store as it was. And whatever the
  body, a \<open>null\<close> description leaves the description as it was, so an update never turns
  a description that is not \<open>null\<close> into \<open>null\<close>.
\<close>

theorem null_update_is_identity:
  assumes "wf db" and "old \<in> set (rows db)" and "id' old = Some task_id"
  shows "(\<not> has_value (b_title b) \<and> \<not> has_value (b_description b) \<and> \<not> has_value (b_completed b)
            \<longrightarrow> (\<exists>r. PUT_task task_id b db = (Inr r, db) \<and> row_of r = old
                   \<and> status_code (fst (PUT_task task_id b db)) = 200))
    \<and> (\<exists>r db'. PUT_task task_id b db = (Inr r, db')
           \<and> (b_description b = Null \<longrightarrow> r_description r = description old)
           \<and> (description old \<noteq> None \<longrightarrow> r_description r \<noteq> None))"
proof -
  let ?new = "assigned (parse_TaskUpdate b) old"
  from wf_from_attributes [OF assms(1,2)] obtain r0 where r0: "from_attributes old = Inr r0" ..
  have keys: "id' ?new = id' old" "created_at ?new = created_at old" by simp_all
  from r0 obtain r where r: "from_attributes ?new = Inr r"
    and d: "r_description r = description ?new"
    by (auto simp: from_attributes_def split: option.splits)
  have put: "PUT_task task_id b db = (Inr r, commit_update db ?new)"
    using PUT_task_present [OF assms] r by simp
  have "r_description r = (case b_description b of Value v \<Rightarrow> Some v | _ \<Rightarrow> description old)"
    using d by (simp add: assigned_parse)
  then have second: "(b_description b = Null \<longrightarrow> r_description r = description old)
      \<and> (description old \<noteq> None \<longrightarrow> r_description r \<noteq> None)"
    by (cases "b_description b") auto
  have first: "\<exists>r. PUT_task task_id b db = (Inr r, db) \<and> row_of r = old
      \<and> status_code (fst (PUT_task task_id b db)) = 200"
    if "\<not> has_value (b_title b)" "\<not> has_value (b_description b)" "\<not> has_value (b_completed b)"
  proof -
    have "parse_TaskUpdate b = \<lparr>u_title = None, u_description = None, u_completed = None\<rparr>"
      using that
      by (cases "b_title b"; cases "b_description b"; cases "b_completed b")
         (simp_all add: parse_TaskUpdate_def)
    then have same: "?new = old" by (simp add: assigned_def)
    then have "commit_update db ?new = db"
      using rows_commit_update_same [OF assms(1,2)] by simp
    moreover have "row_of r = old"
      using r same by (simp add: from_attributes_InrD)
    ultimately show ?thesis using put by simp
  qed
  from first second put show ?thesis by blast
qed

theorem null_update_is_identity_witness:
  "wf example_database \<and> example_task \<in> set (rows example_database) \<and> id' example_task = Some 1
   \<and> \<not> has_value (b_title (empty_body\<lparr>b_description := Null\<rparr>))
   \<and> \<not> has_value (b_description (empty_body\<lparr>b_description := Null\<rparr>))
   \<and> \<not> has_value (b_completed (empty_body\<lparr>b_description := Null\<rparr>))
   \<and> (\<exists>r. PUT_task 1 (empty_body\<lparr>b_description := Null\<rparr>) example_database
             = (Inr r, example_database)
          \<and> row_of r = example_task \<and> r_description r = Some ''Keep This''
          \<and> status_code (fst (PUT_task 1 (empty_body\<lparr>b_description := Null\<rparr>) example_database))
              = 200)"
proof -
  let ?b = "empty_body\<lparr>b_description := Null\<rparr>"
  have h1: "wf example_database" by (rule wf_example_database)
  have h2: "example_task \<in> set (rows example_database)" by (simp add: example_database_def)
  have h3: "id' example_task = Some 1" by (simp add: example_task_def)
  have h4: "\<not> has_value (b_title ?b)" "\<not> has_value (b_description ?b)"
    "\<not> has_value (b_completed ?b)"
    by (simp_all add: empty_body_def)
  from null_update_is_identity [OF h1 h2 h3, of ?b] h4
  obtain r where "PUT_task 1 ?b example_database = (Inr r, example_database)"
    "row_of r = example_task" "status_code (fst (PUT_task 1 ?b example_database)) = 200"
    by auto
  moreover from this(2) have "r_description r = Some ''Keep This''"
    by (simp add: row_of_def example_task_def)
  ultimately show ?thesis using h1 h2 h3 h4 by blast
qed

lemma GET_tasks_append:
  assumes "GET_tasks db = Inr rs" "rows db' = rows db @ [row_of r]"
  shows "GET_tasks db' = Inr (rs @ [r])"
proof -
  have "from_attributes_list (rows db) = Inr rs"
    using assms(1) by (simp add: GET_tasks_def get_tasks_def query_all_def)
  then have "map row_of rs = rows db" by (rule from_attributes_list_InrD)
  with assms(2) have "rows db' = map row_of (rs @ [r])" by simp
  then have "from_attributes_list (rows db') = Inr (rs @ [r])"
    by (simp only: from_attributes_list_map)
  then show ?thesis by (simp add: GET_tasks_def get_tasks_def query_all_def)
qed

lemma POST_tasks_rows:
  assumes "wf db" "POST_tasks now b db = (Inr r, db')"
  shows "rows db' = rows db @ [row_of r]"
proof -
  from assms(2) obtain task where task: "parse_TaskCreate b = Inr task"
    by (cases "parse_TaskCreate b") (auto simp: POST_tasks_def)
  from POST_tasks_accepted [OF assms(1) task, of now] assms(2)
  have "r = \<lparr>r_title = c_title task, r_description = c_description task,
           r_completed = c_completed task, r_id = next_id db, r_created_at = now\<rparr>"
    and "db' = \<lparr>rows = rows db @ [inserted now task db], next_id = next_id db + 1\<rparr>"
    by simp_all
  then show ?thesis by (simp add: row_of_def inserted_def)
qed

lemma reachable_run: "reachable db \<Longrightarrow> reachable (run reqs db)"
proof (induction reqs arbitrary: db)
  case Nil
  then show ?case by simp
next
  case (Cons a reqs)
  obtain now req where a: "a = (now, req)" by (cases a)
  from Cons.prems have "reachable (snd (handle now req db))" by (rule reachable_step)
  then have "reachable (run reqs (snd (handle now req db)))" by (rule Cons.IH)
  with a show ?case by simp
qed

lemma reachable_scenario_database: "reachable scenario_database"
  unfolding scenario_database_def by (rule reachable_run) (rule reachable_empty)

lemma rows_scenario_database:
  "scenario_database =
     \<lparr>rows = [\<lparr>id' = Some 1, title = ''Task 1'', description = Some '''', completed = False,
                created_at = Some 1\<rparr>,
               \<lparr>id' = Some 3, title = ''Task 3'', description = Some '''', completed = False,
                created_at = Some 3\<rparr>],
      next_id = 4\<rparr>"
  by (simp add: scenario_database_def POST_tasks_def parse_TaskCreate_def create_task_def
      add_commit_def refresh_def query_filter_id_first_def from_attributes_def
      DELETE_task_def delete_task_def delete_commit_def only_title_def empty_body_def
      empty_database_def Let_def)

text \<open>
  C2. \<open>GET /tasks\<close> on the empty store answers 200 with the empty array. In every state
  the store reaches from the empty one by requests, it answers 200 with one task object
  per row, in the order of the rows, which is the order of the ids, ascending, and the
  order of insertion: a task created next comes last in the next listing.
\<close>

theorem list_returns_every_task_in_order:
  assumes "reachable db"
  shows "GET_tasks empty_database = Inr [] \<and> status_code (GET_tasks empty_database) = 200
    \<and> (\<exists>rs. GET_tasks db = Inr rs \<and> status_code (GET_tasks db) = 200
          \<and> map row_of rs = rows db \<and> length rs = length (rows db)
          \<and> map r_id rs = ids db \<and> sorted_wrt (<) (map r_id rs)
          \<and> (\<forall>now b r db'. POST_tasks now b db = (Inr r, db')
                \<longrightarrow> GET_tasks db' = Inr (rs @ [r])))"
proof -
  from assms have w: "wf db" by (rule reachable_wf)
  have e: "GET_tasks empty_database = Inr []"
    by (simp add: GET_tasks_def get_tasks_def query_all_def empty_database_def)
  then have e200: "status_code (GET_tasks empty_database) = 200" by simp
  from wf_GET_tasks [OF w] obtain rs where rs: "GET_tasks db = Inr rs"
    and m: "map row_of rs = rows db" by blast
  from rs have s200: "status_code (GET_tasks db) = 200" by simp
  have len: "length rs = length (rows db)"
    unfolding m [symmetric] by simp
  have i: "map r_id rs = ids db"
    unfolding ids_def m [symmetric] by (simp only: ids_map_row_of)
  have s: "sorted_wrt (<) (map r_id rs)"
    unfolding i using w by (simp add: wf_def)
  have p: "\<forall>now b r db'. POST_tasks now b db = (Inr r, db') \<longrightarrow> GET_tasks db' = Inr (rs @ [r])"
    using GET_tasks_append [OF rs] POST_tasks_rows [OF w] by blast
  from rs s200 m len i s p
  have "\<exists>rs. GET_tasks db = Inr rs \<and> status_code (GET_tasks db) = 200
          \<and> map row_of rs = rows db \<and> length rs = length (rows db)
          \<and> map r_id rs = ids db \<and> sorted_wrt (<) (map r_id rs)
          \<and> (\<forall>now b r db'. POST_tasks now b db = (Inr r, db')
                \<longrightarrow> GET_tasks db' = Inr (rs @ [r]))"
    by (intro exI [of _ rs] conjI)
  with e e200 show ?thesis by (intro conjI)
qed

text \<open>
  The spec's end-to-end scenario: the store after three tasks were created and the
  second was deleted lists the tasks 1 and 3, in that order, and a fourth task created
  then is listed after them.
\<close>

theorem list_returns_every_task_in_order_witness:
  "reachable scenario_database
   \<and> (\<exists>rs. GET_tasks scenario_database = Inr rs
         \<and> map r_id rs = [1, 3] \<and> map r_title rs = [''Task 1'', ''Task 3'']
         \<and> sorted_wrt (<) (map r_id rs)
         \<and> (\<exists>r db'. POST_tasks 5 (only_title ''Task 4'') scenario_database = (Inr r, db')
               \<and> r_id r = 4 \<and> r_title r = ''Task 4''
               \<and> GET_tasks db' = Inr (rs @ [r])))"
proof -
  have h: "reachable scenario_database" by (rule reachable_scenario_database)
  from list_returns_every_task_in_order [OF h]
  obtain rs where rs: "GET_tasks scenario_database = Inr rs"
    and m: "map row_of rs = rows scenario_database"
    and i: "map r_id rs = ids scenario_database"
    and s: "sorted_wrt (<) (map r_id rs)"
    and p: "\<forall>now b r db'. POST_tasks now b scenario_database = (Inr r, db')
          \<longrightarrow> GET_tasks db' = Inr (rs @ [r])"
    by blast
  from i have i': "map r_id rs = [1, 3]"
    by (simp add: rows_scenario_database ids_def)
  have "map r_title rs = map title (map row_of rs)"
    by (simp add: row_of_def comp_def)
  with m have t': "map r_title rs = [''Task 1'', ''Task 3'']"
    by (simp add: rows_scenario_database)
  have w: "wf scenario_database" using h by (rule reachable_wf)
  have "parse_TaskCreate (only_title ''Task 4'') =
      Inr \<lparr>c_title = ''Task 4'', c_description = Some '''', c_completed = False\<rparr>"
    by (simp add: parse_TaskCreate_def only_title_def empty_body_def)
  from POST_tasks_accepted [OF w this, of 5]
  obtain r db' where post: "POST_tasks 5 (only_title ''Task 4'') scenario_database = (Inr r, db')"
    and r: "r_id r = next_id scenario_database" "r_title r = ''Task 4''"
    by simp
  from r(1) have r4: "r_id r = 4" by (simp add: rows_scenario_database)
  from p post have l: "GET_tasks db' = Inr (rs @ [r])" by blast
  from post r4 r(2) l
  have "\<exists>r db'. POST_tasks 5 (only_title ''Task 4'') scenario_database = (Inr r, db')
               \<and> r_id r = 4 \<and> r_title r = ''Task 4''
               \<and> GET_tasks db' = Inr (rs @ [r])"
    by (intro exI [of _ r] exI [of _ db'] conjI)
  with rs i' t' s
  have "\<exists>rs. GET_tasks scenario_database = Inr rs
         \<and> map r_id rs = [1, 3] \<and> map r_title rs = [''Task 1'', ''Task 3'']
         \<and> sorted_wrt (<) (map r_id rs)
         \<and> (\<exists>r db'. POST_tasks 5 (only_title ''Task 4'') scenario_database = (Inr r, db')
               \<and> r_id r = 4 \<and> r_title r = ''Task 4''
               \<and> GET_tasks db' = Inr (rs @ [r]))"
    by (intro exI [of _ rs] conjI)
  with h show ?thesis by (intro conjI)
qed

lemma length_remove_unique:
  "distinct (map f xs) \<Longrightarrow> k \<in> f ` set xs \<Longrightarrow>
     length xs = Suc (length (filter (\<lambda>y. f y \<noteq> k) xs))"
proof (induction xs)
  case Nil
  then show ?case by simp
next
  case (Cons x xs)
  show ?case
  proof (cases "f x = k")
    case True
    with Cons.prems(1) have "k \<notin> f ` set xs" by simp
    then have "\<forall>y\<in>set xs. f y \<noteq> k" by blast
    then have "filter (\<lambda>y. f y \<noteq> k) xs = xs" by (simp add: filter_id_conv)
    with True show ?thesis by simp
  next
    case False
    with Cons.prems have "k \<in> f ` set xs" "distinct (map f xs)" by auto
    with Cons.IH False show ?thesis by simp
  qed
qed

lemma ids_remove:
  "ids (db\<lparr>rows := filter (\<lambda>r. id' r \<noteq> Some i) (rows db)\<rparr>) = filter (\<lambda>j. j \<noteq> i) (ids db)"
  by (simp add: ids_def map_filter_remove)

lemma filter_row_of:
  "filter (\<lambda>t. id' t \<noteq> Some i) (map row_of rs) = map row_of (filter (\<lambda>r. r_id r \<noteq> i) rs)"
  by (induction rs) (simp_all add: row_of_def)

text \<open>
  C5. For a task in the store, \<open>DELETE /tasks/{id}\<close> answers 200 with the deletion
  message and removes the row of that id and no other: one row fewer, the id gone from
  the keys, the next listing the old one without that task, \<open>GET /tasks/{id}\<close> then 404,
  and a second \<open>DELETE /tasks/{id}\<close> 404 as well.
\<close>

theorem delete_removes_exactly_that_task:
  assumes "wf db" and "task_id \<in> set (ids db)"
  shows "\<exists>db'. DELETE_task task_id db = (Inr [(''message'', ''Task deleted successfully'')], db')
      \<and> status_code (fst (DELETE_task task_id db)) = 200
      \<and> rows db' = filter (\<lambda>t. id' t \<noteq> Some task_id) (rows db)
      \<and> length (rows db) = Suc (length (rows db'))
      \<and> task_id \<notin> set (ids db')
      \<and> (\<exists>rs. GET_tasks db = Inr rs \<and> GET_tasks db' = Inr (filter (\<lambda>r. r_id r \<noteq> task_id) rs))
      \<and> error_response (GET_task task_id db') = (404, Some [(''detail'', ''Task not found'')])
      \<and> error_response (fst (DELETE_task task_id db'))
          = (404, Some [(''detail'', ''Task not found'')])"
proof -
  let ?db' = "db\<lparr>rows := filter (\<lambda>r. id' r \<noteq> Some task_id) (rows db)\<rparr>"
  have del: "DELETE_task task_id db = (Inr [(''message'', ''Task deleted successfully'')], ?db')"
    using assms(2) by (simp add: DELETE_task_def delete_task_eq)
  then have ok: "status_code (fst (DELETE_task task_id db)) = 200" by simp
  have rows': "rows ?db' = filter (\<lambda>t. id' t \<noteq> Some task_id) (rows db)" by simp
  from assms(2) obtain t where "t \<in> set (rows db)" "id' t = Some task_id"
    by (auto simp: in_ids_iff)
  then have "Some task_id \<in> id' ` set (rows db)" by (metis imageI)
  with wf_distinct_keys [OF assms(1)]
  have "length (rows db) = Suc (length (filter (\<lambda>t. id' t \<noteq> Some task_id) (rows db)))"
    by (rule length_remove_unique)
  then have len: "length (rows db) = Suc (length (rows ?db'))" by simp
  have gone: "task_id \<notin> set (ids ?db')" by (simp add: ids_remove)
  from wf_GET_tasks [OF assms(1)] obtain rs where rs: "GET_tasks db = Inr rs"
    and m: "map row_of rs = rows db" by blast
  have "rows ?db' = map row_of (filter (\<lambda>r. r_id r \<noteq> task_id) rs)"
    using filter_row_of [of task_id rs] by (simp add: m)
  then have "from_attributes_list (rows ?db') = Inr (filter (\<lambda>r. r_id r \<noteq> task_id) rs)"
    by (simp only: from_attributes_list_map)
  then have "GET_tasks ?db' = Inr (filter (\<lambda>r. r_id r \<noteq> task_id) rs)"
    by (simp add: GET_tasks_def get_tasks_def query_all_def)
  with rs have lst: "\<exists>rs. GET_tasks db = Inr rs
      \<and> GET_tasks ?db' = Inr (filter (\<lambda>r. r_id r \<noteq> task_id) rs)"
    by blast
  have get: "error_response (GET_task task_id ?db')
      = (404, Some [(''detail'', ''Task not found'')])"
    using gone by (simp add: GET_task_absent error_response_def not_found_def)
  have again: "error_response (fst (DELETE_task task_id ?db'))
      = (404, Some [(''detail'', ''Task not found'')])"
    using gone by (simp add: DELETE_task_def delete_task_eq error_response_def not_found_def)
  from del ok rows' len gone lst get again show ?thesis
    by (intro exI [of _ ?db'] conjI)
qed

text \<open>Deleting the one task of the example store leaves the empty table.\<close>

theorem delete_removes_exactly_that_task_witness:
  "wf example_database \<and> 1 \<in> set (ids example_database)
   \<and> (\<exists>db'. DELETE_task 1 example_database
                = (Inr [(''message'', ''Task deleted successfully'')], db')
         \<and> rows db' = [] \<and> GET_tasks db' = Inr []
         \<and> error_response (GET_task 1 db') = (404, Some [(''detail'', ''Task not found'')])
         \<and> error_response (fst (DELETE_task 1 db'))
             = (404, Some [(''detail'', ''Task not found'')]))"
proof -
  have h1: "wf example_database" by (rule wf_example_database)
  have h2: "1 \<in> set (ids example_database)"
    by (simp add: example_database_def example_task_def ids_def)
  from delete_removes_exactly_that_task [OF h1 h2]
  obtain db' where d: "DELETE_task 1 example_database
        = (Inr [(''message'', ''Task deleted successfully'')], db')"
    and r: "rows db' = filter (\<lambda>t. id' t \<noteq> Some 1) (rows example_database)"
    and g: "error_response (GET_task 1 db') = (404, Some [(''detail'', ''Task not found'')])"
    and a: "error_response (fst (DELETE_task 1 db'))
        = (404, Some [(''detail'', ''Task not found'')])"
    by blast
  from r have e: "rows db' = []" by (simp add: example_database_def example_task_def)
  then have l: "GET_tasks db' = Inr []"
    by (simp add: GET_tasks_def get_tasks_def query_all_def)
  from d e l g a
  have "\<exists>db'. DELETE_task 1 example_database
                = (Inr [(''message'', ''Task deleted successfully'')], db')
         \<and> rows db' = [] \<and> GET_tasks db' = Inr []
         \<and> error_response (GET_task 1 db') = (404, Some [(''detail'', ''Task not found'')])
         \<and> error_response (fst (DELETE_task 1 db'))
             = (404, Some [(''detail'', ''Task not found'')])"
    by (intro exI [of _ db'] conjI)
  with h1 h2 show ?thesis by (intro conjI)
qed

lemma stamps_insert:
  "stamps \<lparr>rows = rows db @ [inserted now task db], next_id = next_id db + 1\<rparr>
     = stamps db @ [(Some (next_id db), Some now)]"
  by (simp add: stamps_def inserted_def)

lemma stamps_remove:
  "stamps (db\<lparr>rows := filter (\<lambda>r. id' r \<noteq> Some i) (rows db)\<rparr>)
     = filter (\<lambda>k. fst k \<noteq> Some i) (stamps db)"
  by (simp add: stamps_def filter_map comp_def)

lemma stamps_assigned:
  assumes "wf db" "old \<in> set (rows db)"
  shows "stamps (commit_update db (assigned task old)) = stamps db"
  using assms by (rule stamps_commit_update) simp_all

text \<open>
  C6. Every request, served in a state of the store, leaves a state of the store: the
  ids stay distinct. Along the table the pairs of \<open>id\<close> and \<open>created_at\<close> either stay
  as they are, row by row (so no request changes the id or the \<open>created_at\<close> of a row it
  keeps), or lose the pairs of one id (a delete), or gain one pair at the end (a
  create), made of the store's next identity value and the store's clock: whatever the
  request body carries, also under the keys \<open>id\<close> and \<open>created_at\<close>, does not enter it.
\<close>

theorem requests_keep_id_and_created_at:
  assumes "wf db" and "handle now req db = (resp, db')"
  shows "wf db' \<and> distinct (ids db')
    \<and> (stamps db' = stamps db
        \<or> stamps db' = stamps db @ [(Some (next_id db), Some now)]
        \<or> (\<exists>i. stamps db' = filter (\<lambda>k. fst k \<noteq> Some i) (stamps db)))"
proof -
  from assms(2) have db': "db' = snd (handle now req db)" by simp
  have w: "wf db'" unfolding db' using assms(1) by (rule wf_handle)
  then have d: "distinct (ids db')" by (rule wf_distinct_ids)
  from handle_cases [OF assms(1), of now req]
  have "stamps db' = stamps db
        \<or> stamps db' = stamps db @ [(Some (next_id db), Some now)]
        \<or> (\<exists>i. stamps db' = filter (\<lambda>k. fst k \<noteq> Some i) (stamps db))"
    unfolding db' [symmetric]
  proof (elim disjE exE conjE)
    assume "db' = db"
    then show ?thesis by simp
  next
    fix task
    assume "db' = \<lparr>rows = rows db @ [inserted now task db], next_id = next_id db + 1\<rparr>"
    then show ?thesis by (simp only: stamps_insert) simp
  next
    fix task old
    assume "old \<in> set (rows db)" "db' = commit_update db (assigned task old)"
    then show ?thesis using stamps_assigned [OF assms(1)] by simp
  next
    fix i
    assume "db' = db\<lparr>rows := filter (\<lambda>r. id' r \<noteq> Some i) (rows db)\<rparr>"
    then have "stamps db' = filter (\<lambda>k. fst k \<noteq> Some i) (stamps db)"
      by (simp only: stamps_remove)
    then show ?thesis by blast
  qed
  with w d show ?thesis by (intro conjI)
qed

text \<open>
  A create whose body also carries \<open>id = 99\<close> and \<open>created_at = 0\<close>, served at time 200
  in the example store: the new row has the id 2 and the \<open>created_at\<close> 200.
\<close>

theorem requests_keep_id_and_created_at_witness:
  "wf example_database
   \<and> (\<exists>resp db'.
         handle 200 (ReqCreate (only_title ''X''\<lparr>b_id := Value 99, b_created_at := Value 0\<rparr>))
           example_database = (resp, db')
         \<and> wf db' \<and> distinct (ids db')
         \<and> stamps db' = [(Some 1, Some 100), (Some 2, Some 200)])"
proof -
  let ?req = "ReqCreate (only_title ''X''\<lparr>b_id := Value 99, b_created_at := Value 0\<rparr>)"
  have h: "wf example_database" by (rule wf_example_database)
  obtain resp db' where r: "handle 200 ?req example_database = (resp, db')"
    by (cases "handle 200 ?req example_database")
  have p: "parse_TaskCreate (only_title ''X''\<lparr>b_id := Value 99, b_created_at := Value 0\<rparr>)
      = Inr \<lparr>c_title = ''X'', c_description = Some '''', c_completed = False\<rparr>"
    by (simp add: parse_TaskCreate_def only_title_def empty_body_def)
  let ?task = "\<lparr>c_title = ''X'', c_description = Some '''', c_completed = False\<rparr>"
  from r have "db' = snd (POST_tasks 200
      (only_title ''X''\<lparr>b_id := Value 99, b_created_at := Value 0\<rparr>) example_database)"
    by (auto split: prod.splits)
  then have "db' = \<lparr>rows = rows example_database @ [inserted 200 ?task example_database],
      next_id = next_id example_database + 1\<rparr>"
    by (simp only: POST_tasks_accepted [OF h p] snd_conv)
  then have s: "stamps db' = [(Some 1, Some 100), (Some 2, Some 200)]"
    by (simp add: stamps_def inserted_def example_database_def example_task_def)
  from requests_keep_id_and_created_at [OF h r]
  have "wf db'" "distinct (ids db')" by simp_all
  with r s have "\<exists>resp db'. handle 200 ?req example_database = (resp, db')
         \<and> wf db' \<and> distinct (ids db')
         \<and> stamps db' = [(Some 1, Some 100), (Some 2, Some 200)]"
    by (intro exI [of _ resp] exI [of _ db'] conjI)
  with h show ?thesis by (intro conjI)
qed

end
